theory Spec2Isabelle
  imports Main "HOL-Library.AList"
begin

section \<open>Strings and configuration (app.py, lines 10-14)\<close>

text \<open>
  Python strings are modelled by \<open>string\<close>; one \<open>char\<close> stands for one character of the
  Python string, so \<open>length\<close> and \<open>take\<close> count characters as \<open>len\<close> and slicing do.
  The process environment is a dictionary from names to values.
\<close>

type_synonym environ = "string \<rightharpoonup> string"

definition getenv :: "environ \<Rightarrow> string \<Rightarrow> string \<Rightarrow> string" where
  "getenv env name dflt = (case env name of None \<Rightarrow> dflt | Some v \<Rightarrow> v)"

text \<open>
  \<open>str.isspace\<close> on one character: the code points 9-13, 28-31, 32, 133 and 160 are
  the whitespace characters of the range a \<open>char\<close> covers.
\<close>

definition isspace :: "char \<Rightarrow> bool" where
  "isspace c =
     (let n = (of_char c :: nat)
      in (9 \<le> n \<and> n \<le> 13) \<or> (28 \<le> n \<and> n \<le> 31) \<or> n = 32 \<or> n = 133 \<or> n = 160)"

text \<open>\<open>x.strip()\<close>: drop the whitespace at both ends.\<close>

definition str_strip :: "string \<Rightarrow> string" where
  "str_strip s = rev (dropWhile isspace (rev (dropWhile isspace s)))"

text \<open>
  \<open>s.split(sep)\<close> with a one-character separator: the pieces between the separators,
  empty pieces kept; the empty string splits into one empty piece.
\<close>

fun str_split :: "char \<Rightarrow> string \<Rightarrow> string list" where
  "str_split sep [] = [[]]"
| "str_split sep (c # cs) =
     (if c = sep then [] # str_split sep cs
      else (case str_split sep cs of
              [] \<Rightarrow> [[c]]
            | p # ps \<Rightarrow> (c # p) # ps))"

text \<open>
  \<open>CONTENT_TYPES = [x.strip() for x in os.getenv("CONTENT_TYPES",
  "article,news,blog,report").split(",") if x.strip()]\<close>
\<close>

definition CONTENT_TYPES :: "environ \<Rightarrow> string list" where
  "CONTENT_TYPES env =
     [str_strip x. x \<leftarrow> str_split (CHR '','')
                         (getenv env ''CONTENT_TYPES'' ''article,news,blog,report''),
                   str_strip x \<noteq> []]"

definition INDEX_NAME :: "environ \<Rightarrow> string" where
  "INDEX_NAME env = getenv env ''INDEX_NAME'' ''docs''"

text \<open>
  The allow-list as the specification words it: split on commas, strip every piece,
  then discard the pieces that are empty.
\<close>

definition allow_list_spec :: "string \<Rightarrow> string list" where
  "allow_list_spec v = filter (\<lambda>y. y \<noteq> []) (map str_strip (str_split (CHR '','') v))"

record config =
  index_name :: string
  content_types :: "string list"

definition load_config :: "environ \<Rightarrow> config" where
  "load_config env = \<lparr>index_name = INDEX_NAME env, content_types = CONTENT_TYPES env\<rparr>"


section \<open>The search engine behind the client\<close>

text \<open>
  The engine is an external service. It is represented by an in-memory stand-in with the
  seven calls the program makes: cluster health, index exists, index create, count,
  index a document, refresh and search. A document is a dictionary from field names to
  JSON values: the engine stores and returns null, numbers, lists and objects as well as
  strings. (A \<open>JNum\<close> stands for any JSON number; a float behaves as an integer does
  wherever the program looks at it.)
  A document written with \<open>refresh=False\<close> is stored but becomes searchable (and
  counted) only at the next refresh. How a text field matches a query text is the
  engine's analysis and is a parameter of the stand-in (\<open>full_text\<close>); hits are
  returned in the order the documents were first stored. The health call raises or
  returns as its script says; the other calls raise only for a missing index and, for
  create, for an index that exists already.
\<close>

datatype field_type = Text | Keyword

record index_body =
  number_of_shards :: nat
  number_of_replicas :: nat
  properties :: "(string \<times> field_type) list"

datatype json =
    JNull
  | JBool bool
  | JNum int
  | JStr string
  | JList "json list"
  | JObj "(string \<times> json) list"

type_synonym document = "(string \<times> json) list"

datatype clause = MultiMatch string "string list" | TermClause string string

datatype query = BoolMust "clause list" | MatchAll

record search_body =
  req_query :: query
  req_source :: "string list"
  req_size :: nat

record hit =
  hit_id :: nat
  hit_source :: document

datatype call =
    Health
  | Exists string
  | Create string index_body
  | Count string
  | Index string nat document
  | Refresh string
  | Search string search_body

datatype error =
    RuntimeError string
  | NotFoundError string
  | RequestError string
  | ConnectionError
  | TypeError
  | ValidationError

record index_state =
  body :: index_body
  stored :: "(nat \<times> document) list"
  searchable :: "(nat \<times> document) list"

datatype health_outcome = Raises | Returns "(string \<times> string) list"

text \<open>
  The world the program runs in: a clock, the outcome of the k-th health call, the
  engine's full-text matcher, the indices, and the log of the client calls made so far,
  each with the time of the call. Client calls take no time; only \<open>time.sleep\<close>
  advances the clock.
\<close>

record world =
  clock :: nat
  health_script :: "nat \<Rightarrow> health_outcome"
  full_text :: "string \<Rightarrow> string \<Rightarrow> bool"
  indices :: "string \<rightharpoonup> index_state"
  calls :: "(nat \<times> call) list"

definition log_call :: "call \<Rightarrow> world \<Rightarrow> world" where
  "log_call c w = w\<lparr>calls := calls w @ [(clock w, c)]\<rparr>"

definition sleep :: "nat \<Rightarrow> world \<Rightarrow> world" where
  "sleep secs w = w\<lparr>clock := clock w + secs\<rparr>"

definition health_calls :: "world \<Rightarrow> nat list" where
  "health_calls w = map fst (filter (\<lambda>tc. snd tc = Health) (calls w))"

definition cluster_health :: "world \<Rightarrow> (error + (string \<times> string) list) \<times> world" where
  "cluster_health w =
     (case health_script w (length (health_calls w)) of
        Raises \<Rightarrow> (Inl ConnectionError, log_call Health w)
      | Returns h \<Rightarrow> (Inr h, log_call Health w))"

definition indices_exists :: "world \<Rightarrow> string \<Rightarrow> bool \<times> world" where
  "indices_exists w name = (indices w name \<noteq> None, log_call (Exists name) w)"

definition indices_create :: "world \<Rightarrow> string \<Rightarrow> index_body \<Rightarrow> (error + unit) \<times> world" where
  "indices_create w name b =
     (case indices w name of
        Some ix \<Rightarrow> (Inl (RequestError ''resource_already_exists_exception''),
                    log_call (Create name b) w)
      | None \<Rightarrow> (Inr (),
                 (log_call (Create name b) w)
                   \<lparr>indices := (indices w)(name \<mapsto> \<lparr>body = b, stored = [], searchable = []\<rparr>)\<rparr>))"

definition client_count :: "world \<Rightarrow> string \<Rightarrow> (error + nat) \<times> world" where
  "client_count w name =
     (case indices w name of
        None \<Rightarrow> (Inl (NotFoundError ''index_not_found_exception''), log_call (Count name) w)
      | Some ix \<Rightarrow> (Inr (length (searchable ix)), log_call (Count name) w))"

definition client_index :: "world \<Rightarrow> string \<Rightarrow> nat \<Rightarrow> document \<Rightarrow> (error + unit) \<times> world" where
  "client_index w name i doc =
     (case indices w name of
        None \<Rightarrow> (Inl (NotFoundError ''index_not_found_exception''),
                 log_call (Index name i doc) w)
      | Some ix \<Rightarrow> (Inr (),
                    (log_call (Index name i doc) w)
                      \<lparr>indices := (indices w)(name \<mapsto> ix\<lparr>stored := AList.update i doc (stored ix)\<rparr>)\<rparr>))"

definition indices_refresh :: "world \<Rightarrow> string \<Rightarrow> (error + unit) \<times> world" where
  "indices_refresh w name =
     (case indices w name of
        None \<Rightarrow> (Inl (NotFoundError ''index_not_found_exception''), log_call (Refresh name) w)
      | Some ix \<Rightarrow> (Inr (),
                    (log_call (Refresh name) w)
                      \<lparr>indices := (indices w)(name \<mapsto> ix\<lparr>searchable := stored ix\<rparr>)\<rparr>))"

fun clause_matches :: "(string \<Rightarrow> string \<Rightarrow> bool) \<Rightarrow> clause \<Rightarrow> document \<Rightarrow> bool" where
  "clause_matches ft (MultiMatch q fs) d =
     list_ex (\<lambda>f. case map_of d f of Some (JStr v) \<Rightarrow> ft q v | _ \<Rightarrow> False) fs"
| "clause_matches ft (TermClause f v) d = (map_of d f = Some (JStr v))"

fun query_matches :: "(string \<Rightarrow> string \<Rightarrow> bool) \<Rightarrow> query \<Rightarrow> document \<Rightarrow> bool" where
  "query_matches ft MatchAll d = True"
| "query_matches ft (BoolMust cs) d = list_all (\<lambda>c. clause_matches ft c d) cs"

definition to_hit :: "string list \<Rightarrow> nat \<times> document \<Rightarrow> hit" where
  "to_hit fs p =
     \<lparr>hit_id = fst p, hit_source = filter (\<lambda>kv. fst kv \<in> set fs) (snd p)\<rparr>"

definition client_search :: "world \<Rightarrow> string \<Rightarrow> search_body \<Rightarrow> (error + hit list) \<times> world" where
  "client_search w name b =
     (case indices w name of
        None \<Rightarrow> (Inl (NotFoundError ''index_not_found_exception''),
                 log_call (Search name b) w)
      | Some ix \<Rightarrow>
          (Inr (take (req_size b)
                  (map (to_hit (req_source b))
                     (filter (\<lambda>p. query_matches (full_text w) (req_query b) (snd p))
                        (searchable ix)))),
           log_call (Search name b) w))"


section \<open>Bootstrap (app.py, lines 27-78)\<close>

definition health_ok :: "(string \<times> string) list \<Rightarrow> bool" where
  \<comment> \<open>\<open>health and health.get("status")\<close>\<close>
  "health_ok health =
     (health \<noteq> [] \<and> (case map_of health ''status'' of None \<Rightarrow> False | Some s \<Rightarrow> s \<noteq> []))"

text \<open>
  The loop of \<open>wait_for_opensearch\<close>. It sleeps only in the handler of an exception; a
  health response without a status leads straight to the next iteration. The loop need
  not end (the clock stands still without a sleep), so not returning is \<open>None\<close>.
\<close>

partial_function (option) wait_loop ::
  "nat \<Rightarrow> nat \<Rightarrow> world \<Rightarrow> ((error + bool) \<times> world) option" where
  "wait_loop timeout_sec start w =
     (if clock w - start < timeout_sec then
        (case cluster_health w of
           (Inr health, w1) \<Rightarrow>
             if health_ok health then Some (Inr True, w1)
             else wait_loop timeout_sec start w1
         | (Inl e, w1) \<Rightarrow> wait_loop timeout_sec start (sleep 2 w1))
      else Some (Inl (RuntimeError ''OpenSearch not available''), w))"

declare wait_loop.simps [code]

definition wait_for_opensearch :: "nat \<Rightarrow> world \<Rightarrow> ((error + bool) \<times> world) option" where
  "wait_for_opensearch timeout_sec w = wait_loop timeout_sec (clock w) w"

definition index_mapping :: index_body where
  "index_mapping =
     \<lparr>number_of_shards = 1, number_of_replicas = 0,
      properties = [(''title'', Text), (''content'', Text), (''content_type'', Keyword)]\<rparr>"

definition ensure_index :: "config \<Rightarrow> world \<Rightarrow> (error + unit) \<times> world" where
  "ensure_index cfg w =
     (case indices_exists w (index_name cfg) of
        (ex, w1) \<Rightarrow>
          if \<not> ex then indices_create w1 (index_name cfg) index_mapping
          else (Inr (), w1))"

definition seed :: "document list" where
  "seed =
     [[(''title'', JStr ''title1''), (''content'', JStr ''content1''),
       (''content_type'', JStr ''article'')],
      [(''title'', JStr ''title2''), (''content'', JStr ''content2''),
       (''content_type'', JStr ''news'')],
      [(''title'', JStr ''title3''), (''content'', JStr ''content3''),
       (''content_type'', JStr ''blog'')],
      [(''title'', JStr ''title4''), (''content'', JStr ''content4''),
       (''content_type'', JStr ''report'')],
      [(''title'', JStr ''title5''), (''content'', JStr ''content5''),
       (''content_type'', JStr ''article'')]]"

text \<open>\<open>for i, doc in enumerate(seed): client.index(..., id=i+1, body=doc, refresh=False)\<close>\<close>

fun seed_loop :: "config \<Rightarrow> world \<Rightarrow> (nat \<times> document) list \<Rightarrow> (error + unit) \<times> world" where
  "seed_loop cfg w [] = (Inr (), w)"
| "seed_loop cfg w ((i, doc) # rest) =
     (case client_index w (index_name cfg) (i + 1) doc of
        (Inl e, w1) \<Rightarrow> (Inl e, w1)
      | (Inr u, w1) \<Rightarrow> seed_loop cfg w1 rest)"

definition seed_docs :: "config \<Rightarrow> world \<Rightarrow> (error + unit) \<times> world" where
  "seed_docs cfg w =
     (case client_count w (index_name cfg) of
        (Inl e, w1) \<Rightarrow> (Inl e, w1)
      | (Inr count, w1) \<Rightarrow>
          if count > 0 then (Inr (), w1)
          else (case seed_loop cfg w1 (enumerate 0 seed) of
                  (Inl e, w2) \<Rightarrow> (Inl e, w2)
                | (Inr u, w2) \<Rightarrow> indices_refresh w2 (index_name cfg)))"

definition startup :: "config \<Rightarrow> world \<Rightarrow> ((error + unit) \<times> world) option" where
  "startup cfg w =
     (case wait_for_opensearch 60 w of
        None \<Rightarrow> None
      | Some (Inl e, w1) \<Rightarrow> Some (Inl e, w1)
      | Some (Inr ok, w1) \<Rightarrow>
          (case ensure_index cfg w1 of
             (Inl e, w2) \<Rightarrow> Some (Inl e, w2)
           | (Inr u, w2) \<Rightarrow> Some (seed_docs cfg w2)))"


section \<open>Search and the two endpoints (app.py, lines 80-133)\<close>

record SearchResponseItem =
  title :: string
  snippet :: string

text \<open>\<open>d.get(key, default)\<close> on a dictionary, and the truth value of a JSON value.\<close>

definition dict_get :: "document \<Rightarrow> string \<Rightarrow> json \<Rightarrow> json" where
  "dict_get d key dflt = (case map_of d key of None \<Rightarrow> dflt | Some v \<Rightarrow> v)"

fun truthy :: "json \<Rightarrow> bool" where
  "truthy JNull = False"
| "truthy (JBool b) = b"
| "truthy (JNum n) = (n \<noteq> 0)"
| "truthy (JStr s) = (s \<noteq> [])"
| "truthy (JList xs) = (xs \<noteq> [])"
| "truthy (JObj kvs) = (kvs \<noteq> [])"

text \<open>
  \<open>content[:50]\<close>: a string and a list can be sliced; a number, a boolean and a
  dictionary cannot, and the slice raises (for a dictionary the exception is a
  \<open>TypeError\<close> or a \<open>KeyError\<close>, depending on the Python version). \<open>None\<close> never
  reaches the slice.
\<close>

fun slice50 :: "json \<Rightarrow> error + json" where
  "slice50 (JStr s) = Inr (JStr (take 50 s))"
| "slice50 (JList xs) = Inr (JList (take 50 xs))"
| "slice50 v = Inl TypeError"

text \<open>
  \<open>SearchResponseItem(title=..., snippet=...)\<close>: both fields are declared \<open>str\<close>, and
  the model accepts strings only.
\<close>

fun new_SearchResponseItem :: "json \<Rightarrow> json \<Rightarrow> error + SearchResponseItem" where
  "new_SearchResponseItem (JStr t) (JStr s) = Inr \<lparr>title = t, snippet = s\<rparr>"
| "new_SearchResponseItem t s = Inl ValidationError"

text \<open>
  The body of the loop over the hits: \<open>content = src.get("content", "") or ""\<close>,
  \<open>snippet = content[:50]\<close>, \<open>title = src.get("title", "")\<close>.
\<close>

definition to_item :: "hit \<Rightarrow> error + SearchResponseItem" where
  "to_item h =
     (let src = hit_source h;
          content = (let c = dict_get src ''content'' (JStr []) in
                     if truthy c then c else JStr [])
      in case slice50 content of
           Inl e \<Rightarrow> Inl e
         | Inr snip \<Rightarrow> new_SearchResponseItem (dict_get src ''title'' (JStr [])) snip)"

text \<open>The loop over the hits: the first exception ends it.\<close>

fun to_items :: "hit list \<Rightarrow> error + SearchResponseItem list" where
  "to_items [] = Inr []"
| "to_items (h # hs) =
     (case to_item h of
        Inl e \<Rightarrow> Inl e
      | Inr item \<Rightarrow>
          (case to_items hs of
             Inl e \<Rightarrow> Inl e
           | Inr items \<Rightarrow> Inr (item # items)))"

text \<open>
  \<open>do_search\<close>. The optional \<open>content_type\<close> is \<open>None\<close> or a string; \<open>if content_type:\<close>
  holds for a non-empty string only.
\<close>

definition do_search ::
  "config \<Rightarrow> world \<Rightarrow> string \<Rightarrow> string option \<Rightarrow> (error + SearchResponseItem list) \<times> world" where
  "do_search cfg w q content_type =
     (let must = (if q \<noteq> [] then [MultiMatch q [''title'', ''content'']] else []);
          ct = (case content_type of None \<Rightarrow> [] | Some c \<Rightarrow> c)
      in if ct \<noteq> [] \<and> ct \<notin> set (content_types cfg) then (Inr [], w)
         else
           (let must = (if ct \<noteq> [] then must @ [TermClause ''content_type'' ct] else must);
                qry = (if must \<noteq> [] then BoolMust must else MatchAll)
            in case client_search w (index_name cfg)
                      \<lparr>req_query = qry, req_source = [''title'', ''content''], req_size = 25\<rparr> of
                 (Inl e, w1) \<Rightarrow> (Inl e, w1)
               | (Inr hits, w1) \<Rightarrow> (to_items hits, w1)))"

record page =
  page_q :: string
  page_content_types :: "string list"
  selected_type :: string
  results :: "SearchResponseItem list"

definition home ::
  "config \<Rightarrow> world \<Rightarrow> string \<Rightarrow> string option \<Rightarrow> (error + page) \<times> world" where
  "home cfg w q content_type =
     (let ct = (case content_type of None \<Rightarrow> [] | Some c \<Rightarrow> c)
      in case (if q \<noteq> [] \<or> ct \<noteq> [] then do_search cfg w q content_type else (Inr [], w)) of
           (Inl e, w1) \<Rightarrow> (Inl e, w1)
         | (Inr rs, w1) \<Rightarrow>
             (Inr \<lparr>page_q = q, page_content_types = content_types cfg,
                   selected_type = ct, results = rs\<rparr>, w1))"

definition model_dump :: "SearchResponseItem \<Rightarrow> (string \<times> string) list" where
  "model_dump item = [(''title'', title item), (''snippet'', snippet item)]"

definition api_search ::
  "config \<Rightarrow> world \<Rightarrow> string \<Rightarrow> string option \<Rightarrow> (error + (string \<times> string) list list) \<times> world" where
  "api_search cfg w q content_type =
     (case do_search cfg w q content_type of
        (Inl e, w1) \<Rightarrow> (Inl e, w1)
      | (Inr items, w1) \<Rightarrow> (Inr (map model_dump items), w1))"

section \<open>Concrete configurations and worlds\<close>

text \<open>
  The configuration of an empty environment; an engine that answers every health call
  with status green, matches a text field when it equals the query text, and has no
  index yet; and the same engine with the index \<open>docs\<close> holding the five seed documents.
\<close>

definition default_config :: config where
  "default_config = load_config Map.empty"

definition fresh_world :: world where
  "fresh_world =
     \<lparr>clock = 0, health_script = (\<lambda>k. Returns [(''status'', ''green'')]),
      full_text = (\<lambda>q v. q = v), indices = Map.empty, calls = []\<rparr>"

definition seeded_index :: index_state where
  "seeded_index =
     \<lparr>body = index_mapping, stored = zip [1, 2, 3, 4, 5] seed,
      searchable = zip [1, 2, 3, 4, 5] seed\<rparr>"

definition seeded_world :: world where
  "seeded_world = fresh_world\<lparr>indices := [''docs'' \<mapsto> seeded_index]\<rparr>"





text \<open>
  The engine with the index \<open>docs\<close> created and empty, and the engine with an index
  \<open>docs\<close> that holds one document that is not a seed document.
\<close>

definition empty_index_world :: world where
  "empty_index_world =
     fresh_world\<lparr>indices :=
       [''docs'' \<mapsto> \<lparr>body = index_mapping, stored = [], searchable = []\<rparr>]\<rparr>"

definition one_doc_world :: world where
  "one_doc_world =
     fresh_world\<lparr>indices :=
       [''docs'' \<mapsto>
          \<lparr>body = index_mapping,
           stored =
             [(7, [(''title'', JStr ''t''), (''content'', JStr ''c''),
                   (''content_type'', JStr ''news'')])],
           searchable =
             [(7, [(''title'', JStr ''t''), (''content'', JStr ''c''),
                   (''content_type'', JStr ''news'')])]\<rparr>]\<rparr>"

text \<open>
  Three engines for the wait loop: one whose health call always raises, one whose first
  three health calls raise before it answers green, and one whose first two health
  responses carry no status before it answers green.
\<close>

definition unreachable_world :: world where
  "unreachable_world = fresh_world\<lparr>health_script := (\<lambda>k. Raises)\<rparr>"

definition late_world :: world where
  "late_world =
     fresh_world\<lparr>health_script :=
       (\<lambda>k. if k < 3 then Raises else Returns [(''status'', ''green'')])\<rparr>"

definition statusless_world :: world where
  "statusless_world =
     fresh_world\<lparr>health_script :=
       (\<lambda>k. if k < 2 then Returns [(''cluster_name'', ''c'')]
            else Returns [(''status'', ''green'')])\<rparr>"

section \<open>Observations on a run\<close>

text \<open>
  The number of create calls for an index in the log of client calls, and \<open>ensure_index\<close>
  run \<open>n\<close> times in succession.
\<close>

definition creates :: "string \<Rightarrow> world \<Rightarrow> nat" where
  "creates name w =
     length (filter (\<lambda>tc. case snd tc of Create n b \<Rightarrow> n = name | _ \<Rightarrow> False) (calls w))"

fun ensure_index_times :: "nat \<Rightarrow> config \<Rightarrow> world \<Rightarrow> world" where
  "ensure_index_times 0 cfg w = w"
| "ensure_index_times (Suc n) cfg w = ensure_index_times n cfg (snd (ensure_index cfg w))"


text \<open>
  The stored documents of an index after the five seed documents have been put under
  the ids 1 to 5; the number of documents stored in an index; two bootstrap runs in
  succession, the second on the world the first left when it returned normally; and
  the result of a run together with the number of documents it left in an index.
\<close>

definition seed_into :: "(nat \<times> document) list \<Rightarrow> (nat \<times> document) list" where
  "seed_into st = fold (\<lambda>p. AList.update (fst p + 1) (snd p)) (enumerate 0 seed) st"

definition document_count :: "string \<Rightarrow> world \<Rightarrow> nat option" where
  "document_count name w =
     (case indices w name of None \<Rightarrow> None | Some ix \<Rightarrow> Some (length (stored ix)))"

definition startup_twice :: "config \<Rightarrow> world \<Rightarrow> ((error + unit) \<times> world) option" where
  "startup_twice cfg w =
     (case startup cfg w of
        Some (Inr u, w1) \<Rightarrow> startup cfg w1
      | r \<Rightarrow> r)"

definition document_count_after ::
  "string \<Rightarrow> ((error + unit) \<times> world) option \<Rightarrow> ((error + unit) \<times> nat option) option" where
  "document_count_after name r =
     (case r of None \<Rightarrow> None | Some rw \<Rightarrow> Some (fst rw, document_count name (snd rw)))"

text \<open>The page's results as the dictionaries the JSON endpoint returns.\<close>

definition rendered_results :: "page \<Rightarrow> (string \<times> string) list list" where
  "rendered_results p = map model_dump (results p)"

text \<open>
  The text of a field: the string it holds, and the empty string when the field is
  absent or holds no string. A title can be formatted when it is absent or a string; a
  content when it is absent, null or a string.
\<close>

fun text_of :: "json option \<Rightarrow> string" where
  "text_of (Some (JStr s)) = s"
| "text_of v = []"

fun str_or_absent :: "json option \<Rightarrow> bool" where
  "str_or_absent None = True"
| "str_or_absent (Some (JStr s)) = True"
| "str_or_absent v = False"

fun str_null_or_absent :: "json option \<Rightarrow> bool" where
  "str_null_or_absent None = True"
| "str_null_or_absent (Some JNull) = True"
| "str_null_or_absent (Some (JStr s)) = True"
| "str_null_or_absent v = False"

definition well_typed :: "document \<Rightarrow> bool" where
  "well_typed d =
     (str_or_absent (map_of d ''title'') \<and> str_null_or_absent (map_of d ''content''))"

definition item_of :: "document \<Rightarrow> SearchResponseItem" where
  "item_of d =
     \<lparr>title = text_of (map_of d ''title''), snippet = take 50 (text_of (map_of d ''content''))\<rparr>"


section \<open>Facts about the configuration\<close>

lemma str_split_nonempty: "str_split sep s \<noteq> []"
  by (induction s) (auto split: list.splits)

lemma str_split_no_sep: "p \<in> set (str_split sep s) \<Longrightarrow> sep \<notin> set p"
  by (induction s arbitrary: p) (auto split: list.splits if_splits)

lemma comprehension_filter_map:
  "[f x. x \<leftarrow> xs, f x \<noteq> []] = filter (\<lambda>y. y \<noteq> []) (map f xs)"
  by (induction xs) auto

lemma str_strip_last: "str_strip s \<noteq> [] \<Longrightarrow> \<not> isspace (last (str_strip s))"
  unfolding str_strip_def by (simp add: last_rev hd_dropWhile)

lemma str_strip_hd:
  assumes "str_strip s \<noteq> []"
  shows "\<not> isspace (hd (str_strip s))"
proof -
  define t where "t = dropWhile isspace s"
  have ne: "dropWhile isspace (rev t) \<noteq> []"
    using assms by (simp add: str_strip_def t_def)
  have "rev t = takeWhile isspace (rev t) @ dropWhile isspace (rev t)" by simp
  then have "t = rev (dropWhile isspace (rev t)) @ rev (takeWhile isspace (rev t))"
    by (metis rev_append rev_rev_ident)
  then have "hd t = hd (rev (dropWhile isspace (rev t)))"
    using ne by (metis hd_append2 rev_is_Nil_conv)
  moreover have "t \<noteq> []" using ne by auto
  then have "\<not> isspace (hd t)" unfolding t_def by (rule hd_dropWhile)
  ultimately show ?thesis by (simp add: str_strip_def t_def)
qed

text \<open>
  Claim C10. For every value of the CONTENT_TYPES environment variable (the default
  when it is unset), the allow-list computed by the comprehension of the source is the
  list obtained by splitting the value on commas, stripping every piece and discarding
  the pieces that are empty after stripping; it never contains the empty string, and no
  entry starts or ends with a whitespace character.
\<close>

theorem CONTENT_TYPES_allow_list:
  "CONTENT_TYPES env =
     allow_list_spec (getenv env ''CONTENT_TYPES'' ''article,news,blog,report'')
   \<and> [] \<notin> set (CONTENT_TYPES env)
   \<and> (\<forall>x \<in> set (CONTENT_TYPES env). \<not> isspace (hd x) \<and> \<not> isspace (last x))"
proof -
  have eq: "CONTENT_TYPES env =
      allow_list_spec (getenv env ''CONTENT_TYPES'' ''article,news,blog,report'')"
    unfolding CONTENT_TYPES_def allow_list_spec_def by (rule comprehension_filter_map)
  have ne: "[] \<notin> set (CONTENT_TYPES env)"
    unfolding eq allow_list_spec_def by simp
  have ends: "\<not> isspace (hd x) \<and> \<not> isspace (last x)" if "x \<in> set (CONTENT_TYPES env)" for x
  proof -
    from that obtain p where "x = str_strip p" and "str_strip p \<noteq> []"
      unfolding eq allow_list_spec_def by auto
    then show ?thesis using str_strip_hd [of p] str_strip_last [of p] by simp
  qed
  from eq ne ends show ?thesis by blast
qed

theorem CONTENT_TYPES_allow_list_witness:
  "CONTENT_TYPES [''CONTENT_TYPES'' \<mapsto> '' a , ,b,, c d ,''] = [''a'', ''b'', ''c d'']
   \<and> allow_list_spec '' a , ,b,, c d ,'' = [''a'', ''b'', ''c d'']
   \<and> \<not> isspace (hd ''c d'') \<and> \<not> isspace (last ''c d'')"
proof -
  let ?env = "[''CONTENT_TYPES'' \<mapsto> '' a , ,b,, c d ,'']"
  have v: "CONTENT_TYPES ?env = [''a'', ''b'', ''c d'']" by code_simp
  have g: "getenv ?env ''CONTENT_TYPES'' ''article,news,blog,report'' = '' a , ,b,, c d ,''"
    by (simp add: getenv_def)
  from CONTENT_TYPES_allow_list [of ?env] show ?thesis
    unfolding g v by simp
qed

section \<open>Facts about the concrete worlds\<close>

lemma default_config_eq:
  "default_config =
     \<lparr>index_name = ''docs'', content_types = [''article'', ''news'', ''blog'', ''report'']\<rparr>"
  unfolding default_config_def load_config_def by code_simp

lemma seeded_index_lookup:
  "indices seeded_world (index_name default_config) = Some seeded_index"
  by (simp add: seeded_world_def fresh_world_def default_config_eq)

lemma seeded_search_all_None:
  "fst (do_search default_config seeded_world [] None) =
     Inr [\<lparr>title = ''title1'', snippet = ''content1''\<rparr>,
          \<lparr>title = ''title2'', snippet = ''content2''\<rparr>,
          \<lparr>title = ''title3'', snippet = ''content3''\<rparr>,
          \<lparr>title = ''title4'', snippet = ''content4''\<rparr>,
          \<lparr>title = ''title5'', snippet = ''content5''\<rparr>]"
  by (simp add: default_config_eq do_search_def seeded_world_def fresh_world_def
      seeded_index_def client_search_def seed_def to_hit_def to_item_def dict_get_def
      log_call_def)

lemma seeded_search_content1:
  "fst (do_search default_config seeded_world ''content1'' None) =
     Inr [\<lparr>title = ''title1'', snippet = ''content1''\<rparr>]"
  by (simp add: default_config_eq do_search_def seeded_world_def fresh_world_def
      seeded_index_def client_search_def seed_def to_hit_def to_item_def dict_get_def
      log_call_def)


section \<open>Facts about the engine and the search it receives\<close>



lemma map_of_filter_key:
  "k \<in> set ks \<Longrightarrow> map_of (filter (\<lambda>kv. fst kv \<in> set ks) d) k = map_of d k"
  by (induction d) auto



section \<open>Unknown content types\<close>

lemma do_search_invalid:
  "ct \<noteq> [] \<Longrightarrow> ct \<notin> set (content_types cfg) \<Longrightarrow> do_search cfg w q (Some ct) = (Inr [], w)"
  by (simp add: do_search_def)

text \<open>
  Claim C1. For every query string \<open>q\<close>, if a \<open>content_type\<close> value is provided (a
  non-empty string: an empty parameter counts as not provided, for the program as for
  the specification) that is not in the configured allow-list, \<open>do_search\<close> and hence
  the JSON endpoint return the empty list, not an error, and make no call to the engine
  (the world is returned as it was), whatever \<open>q\<close> and the state of the engine are.
\<close>

theorem do_search_unknown_content_type:
  "ct \<noteq> [] \<Longrightarrow> ct \<notin> set (content_types cfg) \<Longrightarrow>
     do_search cfg w q (Some ct) = (Inr [], w) \<and> api_search cfg w q (Some ct) = (Inr [], w)"
  by (simp add: do_search_invalid api_search_def)

theorem do_search_unknown_content_type_witness:
  "do_search default_config fresh_world ''content1'' (Some ''bogus'') = (Inr [], fresh_world)
   \<and> api_search default_config fresh_world ''content1'' (Some ''bogus'') = (Inr [], fresh_world)"
proof -
  have "''bogus'' \<noteq> []" by simp
  moreover have "''bogus'' \<notin> set (content_types default_config)"
    by (simp add: default_config_eq)
  ultimately show ?thesis
    by (rule do_search_unknown_content_type)
qed


section \<open>Formatting the hits\<close>

lemma to_item_well_typed:
  "well_typed (hit_source h) \<Longrightarrow> to_item h = Inr (item_of (hit_source h))"
  by (cases "map_of (hit_source h) ''title''" rule: str_or_absent.cases;
      cases "map_of (hit_source h) ''content''" rule: str_null_or_absent.cases)
     (simp_all add: well_typed_def to_item_def item_of_def dict_get_def)


lemma to_items_well_typed:
  "list_all (\<lambda>h. well_typed (hit_source h)) hits \<Longrightarrow>
     to_items hits = Inr (map (\<lambda>h. item_of (hit_source h)) hits)"
  by (induction hits) (simp_all add: to_item_well_typed)



lemma to_items_nonempty: "hits \<noteq> [] \<Longrightarrow> to_items hits \<noteq> Inr []"
  by (cases hits) (auto split: sum.splits)

lemma item_of_to_hit:
  "item_of (hit_source (to_hit [''title'', ''content''] d)) = item_of (snd d)"
  using map_of_filter_key [of "''title''" "[''title'', ''content'']" "snd d"]
    map_of_filter_key [of "''content''" "[''title'', ''content'']" "snd d"]
  by (simp add: item_of_def to_hit_def)

lemma well_typed_to_hit:
  "well_typed (hit_source (to_hit [''title'', ''content''] d)) = well_typed (snd d)"
  using map_of_filter_key [of "''title''" "[''title'', ''content'']" "snd d"]
    map_of_filter_key [of "''content''" "[''title'', ''content'']" "snd d"]
  by (simp add: well_typed_def to_hit_def)





section \<open>The two endpoints\<close>

lemma client_search_existing:
  "indices w name = Some ix \<Longrightarrow>
     client_search w name b =
       (Inr (take (req_size b)
               (map (to_hit (req_source b))
                  (filter (\<lambda>p. query_matches (full_text w) (req_query b) (snd p))
                     (searchable ix)))),
        log_call (Search name b) w)"
  by (simp add: client_search_def)

lemma do_search_match_all:
  assumes "content_type = None \<or> content_type = Some []"
      and "indices w (index_name cfg) = Some ix"
  shows "do_search cfg w [] content_type =
           (to_items (map (to_hit [''title'', ''content'']) (take 25 (searchable ix))),
            log_call (Search (index_name cfg)
               \<lparr>req_query = MatchAll, req_source = [''title'', ''content''], req_size = 25\<rparr>) w)"
  using assms by (auto simp: do_search_def client_search_def take_map)

lemma home_empty:
  "content_type = None \<or> content_type = Some [] \<Longrightarrow>
     home cfg w [] content_type =
       (Inr \<lparr>page_q = [], page_content_types = content_types cfg,
             selected_type = [], results = []\<rparr>, w)"
  by (auto simp: home_def)





text \<open>
  Claim C6. For the JSON endpoint, with \<open>q\<close> empty and \<open>content_type\<close> empty or absent,
  a search is still sent to the engine, with a match-all query and size 25; where the
  index exists, the response is made of the first 25 searchable documents, formatted
  one by one. Where these documents have string fields, as the seeded ones have, it is
  the list of them, each as its title and the first 50 characters of its content; and
  it is never the empty list when the index has a searchable document.
\<close>

theorem api_search_match_all:
  assumes "content_type = None \<or> content_type = Some []"
      and "indices w (index_name cfg) = Some ix"
  shows "api_search cfg w [] content_type =
           (map_sum id (map model_dump)
              (to_items (map (to_hit [''title'', ''content'']) (take 25 (searchable ix)))),
            log_call (Search (index_name cfg)
               \<lparr>req_query = MatchAll, req_source = [''title'', ''content''], req_size = 25\<rparr>) w)
         \<and> (list_all (\<lambda>d. well_typed (snd d)) (take 25 (searchable ix)) \<longrightarrow>
             api_search cfg w [] content_type =
               (Inr (map (\<lambda>d. [(''title'', text_of (map_of (snd d) ''title'')),
                                 (''snippet'', take 50 (text_of (map_of (snd d) ''content'')))])
                        (take 25 (searchable ix))),
                log_call (Search (index_name cfg)
                   \<lparr>req_query = MatchAll, req_source = [''title'', ''content''],
                    req_size = 25\<rparr>) w))
         \<and> (searchable ix \<noteq> [] \<longrightarrow> fst (api_search cfg w [] content_type) \<noteq> Inr [])"
proof -
  let ?hits = "map (to_hit [''title'', ''content'']) (take 25 (searchable ix))"
  let ?w1 = "log_call (Search (index_name cfg)
               \<lparr>req_query = MatchAll, req_source = [''title'', ''content''], req_size = 25\<rparr>) w"
  have a: "api_search cfg w [] content_type = (map_sum id (map model_dump) (to_items ?hits), ?w1)"
    unfolding api_search_def do_search_match_all [OF assms]
    by (cases "to_items ?hits") simp_all
  have b: "to_items ?hits =
       Inr (map (\<lambda>d. item_of (snd d)) (take 25 (searchable ix)))"
    if "list_all (\<lambda>d. well_typed (snd d)) (take 25 (searchable ix))"
  proof -
    from that have "list_all (\<lambda>h. well_typed (hit_source h)) ?hits"
      by (simp add: list_all_iff well_typed_to_hit)
    from to_items_well_typed [OF this] show ?thesis
      by (simp add: comp_def item_of_to_hit)
  qed
  have c: "fst (api_search cfg w [] content_type) \<noteq> Inr []" if "searchable ix \<noteq> []"
  proof -
    from that have "?hits \<noteq> []" by simp
    from to_items_nonempty [OF this] show ?thesis
      unfolding a by (cases "to_items ?hits") simp_all
  qed
  from a b c show ?thesis
    by (simp add: comp_def model_dump_def item_of_def)
qed

theorem api_search_match_all_witness:
  "fst (api_search default_config seeded_world [] None) =
     Inr [[(''title'', ''title1''), (''snippet'', ''content1'')],
          [(''title'', ''title2''), (''snippet'', ''content2'')],
          [(''title'', ''title3''), (''snippet'', ''content3'')],
          [(''title'', ''title4''), (''snippet'', ''content4'')],
          [(''title'', ''title5''), (''snippet'', ''content5'')]]
   \<and> fst (api_search default_config seeded_world [] None) \<noteq> Inr []"
proof -
  have a: "(None :: string option) = None \<or> None = Some []" by simp
  have s: "searchable seeded_index \<noteq> []" by (simp add: seeded_index_def seed_def)
  have t: "list_all (\<lambda>d. well_typed (snd d)) (take 25 (searchable seeded_index))"
    by (simp add: seeded_index_def seed_def well_typed_def)
  have v: "map (\<lambda>d. [(''title'', text_of (map_of (snd d) ''title'')),
                      (''snippet'', take 50 (text_of (map_of (snd d) ''content'')))])
             (take 25 (searchable seeded_index)) =
       [[(''title'', ''title1''), (''snippet'', ''content1'')],
        [(''title'', ''title2''), (''snippet'', ''content2'')],
        [(''title'', ''title3''), (''snippet'', ''content3'')],
        [(''title'', ''title4''), (''snippet'', ''content4'')],
        [(''title'', ''title5''), (''snippet'', ''content5'')]]"
    by (simp add: seeded_index_def seed_def)
  have e: "api_search default_config seeded_world [] None =
     (Inr (map (\<lambda>d. [(''title'', text_of (map_of (snd d) ''title'')),
                      (''snippet'', take 50 (text_of (map_of (snd d) ''content'')))])
             (take 25 (searchable seeded_index))),
      log_call (Search (index_name default_config)
         \<lparr>req_query = MatchAll, req_source = [''title'', ''content''], req_size = 25\<rparr>)
        seeded_world)"
    using api_search_match_all
      [OF a seeded_index_lookup, THEN conjunct2, THEN conjunct1, rule_format, OF t] .
  have n: "fst (api_search default_config seeded_world [] None) \<noteq> Inr []"
    using api_search_match_all
      [OF a seeded_index_lookup, THEN conjunct2, THEN conjunct2, rule_format, OF s] .
  have f: "fst (api_search default_config seeded_world [] None) =
     Inr [[(''title'', ''title1''), (''snippet'', ''content1'')],
          [(''title'', ''title2''), (''snippet'', ''content2'')],
          [(''title'', ''title3''), (''snippet'', ''content3'')],
          [(''title'', ''title4''), (''snippet'', ''content4'')],
          [(''title'', ''title5''), (''snippet'', ''content5'')]]"
    unfolding e v by simp
  from f n show ?thesis by (rule conjI)
qed

text \<open>
  Claim C7, as stated, fails: with both parameters empty the JSON endpoint returns the
  five seeded documents while the HTML endpoint renders an empty result list.
\<close>

theorem api_search_differs_from_home_on_empty_input:
  "fst (api_search default_config seeded_world [] None)
     \<noteq> map_sum id rendered_results
         (fst (home default_config seeded_world [] None))"
proof -
  have "fst (api_search default_config seeded_world [] None) \<noteq> Inr []"
    using seeded_search_all_None
    by (cases "do_search default_config seeded_world [] None") (simp add: api_search_def)
  then show ?thesis by (simp add: home_empty rendered_results_def)
qed

text \<open>
  Claim C7, amended. For every pair of parameters of which at least one is non-empty,
  and the same world, the JSON endpoint returns the list of results that the HTML
  endpoint renders (each result as its dictionary), raises when and what the HTML
  endpoint raises, and leaves the same world. (With both parameters empty the two
  endpoints differ: the HTML endpoint renders no result and does not search.)
\<close>

theorem api_search_agrees_with_home:
  "q \<noteq> [] \<or> (\<exists>c. content_type = Some c \<and> c \<noteq> []) \<Longrightarrow>
     fst (api_search cfg w q content_type) =
       map_sum id rendered_results (fst (home cfg w q content_type))
     \<and> snd (api_search cfg w q content_type) = snd (home cfg w q content_type)"
  by (auto simp: home_def api_search_def rendered_results_def Let_def
      split: option.splits prod.splits sum.splits)

theorem api_search_agrees_with_home_witness:
  "fst (api_search default_config seeded_world ''content1'' None) =
     Inr [[(''title'', ''title1''), (''snippet'', ''content1'')]]
   \<and> map_sum id rendered_results
        (fst (home default_config seeded_world ''content1'' None)) =
     Inr [[(''title'', ''title1''), (''snippet'', ''content1'')]]"
proof -
  have a: "''content1'' \<noteq> [] \<or> (\<exists>c. (None :: string option) = Some c \<and> c \<noteq> [])" by simp
  have b: "fst (api_search default_config seeded_world ''content1'' None) =
     Inr [[(''title'', ''title1''), (''snippet'', ''content1'')]]"
    using seeded_search_content1
    by (cases "do_search default_config seeded_world ''content1'' None")
       (simp add: api_search_def model_dump_def)
  from api_search_agrees_with_home [OF a, of default_config seeded_world] b
  show ?thesis by simp
qed


section \<open>The index and its mapping\<close>

lemma ensure_index_present:
  "indices w (index_name cfg) = Some ix \<Longrightarrow>
     ensure_index cfg w = (Inr (), log_call (Exists (index_name cfg)) w)"
  by (simp add: ensure_index_def indices_exists_def)

lemma ensure_index_absent:
  "indices w (index_name cfg) = None \<Longrightarrow>
     ensure_index cfg w =
       (Inr (), (log_call (Create (index_name cfg) index_mapping)
                  (log_call (Exists (index_name cfg)) w))
                \<lparr>indices := (indices w)(index_name cfg \<mapsto>
                     \<lparr>body = index_mapping, stored = [], searchable = []\<rparr>)\<rparr>)"
  by (simp add: ensure_index_def indices_exists_def indices_create_def log_call_def)

lemma creates_ensure_present:
  "indices w (index_name cfg) = Some ix \<Longrightarrow>
     creates name (snd (ensure_index cfg w)) = creates name w
     \<and> indices (snd (ensure_index cfg w)) = indices w"
  by (simp add: ensure_index_present creates_def log_call_def)

lemma creates_ensure_absent:
  "indices w (index_name cfg) = None \<Longrightarrow>
     creates (index_name cfg) (snd (ensure_index cfg w)) = creates (index_name cfg) w + 1
     \<and> indices (snd (ensure_index cfg w)) (index_name cfg) \<noteq> None"
  by (simp add: ensure_index_absent creates_def log_call_def)

lemma ensure_index_times_present:
  "indices w (index_name cfg) \<noteq> None \<Longrightarrow>
     creates name (ensure_index_times n cfg w) = creates name w
     \<and> indices (ensure_index_times n cfg w) = indices w"
proof (induction n arbitrary: w)
  case 0 then show ?case by simp
next
  case (Suc n)
  then obtain ix where ix: "indices w (index_name cfg) = Some ix" by auto
  from creates_ensure_present [OF ix, of name] Suc show ?case by simp
qed

lemma ensure_index_times_creates:
  "creates (index_name cfg) (ensure_index_times n cfg w) \<le> creates (index_name cfg) w + 1"
proof (cases "indices w (index_name cfg)")
  case (Some ix)
  then show ?thesis using ensure_index_times_present [of w cfg "index_name cfg" n] by simp
next
  case None
  show ?thesis
  proof (cases n)
    case 0 then show ?thesis by simp
  next
    case (Suc m)
    show ?thesis
      unfolding Suc
      using creates_ensure_absent [OF None]
        ensure_index_times_present [of "snd (ensure_index cfg w)" cfg "index_name cfg" m]
      by simp
  qed
qed

text \<open>
  Claim C9. \<open>ensure_index\<close> creates the index only when it does not exist: on an
  existing index it makes the exists call and nothing else, on a missing index it
  creates it, empty, with the fixed mapping. That mapping has exactly three fields:
  title as text, content as text and content_type as keyword. However often
  \<open>ensure_index\<close> is run in succession, at most one create call for the index name is
  added to the log.
\<close>

theorem ensure_index_creates_once:
  "(indices w (index_name cfg) = Some ix \<longrightarrow>
      ensure_index cfg w = (Inr (), log_call (Exists (index_name cfg)) w))
   \<and> (indices w (index_name cfg) = None \<longrightarrow>
      ensure_index cfg w =
        (Inr (), (log_call (Create (index_name cfg) index_mapping)
                   (log_call (Exists (index_name cfg)) w))
                 \<lparr>indices := (indices w)(index_name cfg \<mapsto>
                      \<lparr>body = index_mapping, stored = [], searchable = []\<rparr>)\<rparr>))
   \<and> properties index_mapping =
        [(''title'', Text), (''content'', Text), (''content_type'', Keyword)]
   \<and> creates (index_name cfg) (ensure_index_times n cfg w) \<le> creates (index_name cfg) w + 1"
  using ensure_index_present [of w cfg ix] ensure_index_absent [of w cfg]
    ensure_index_times_creates [of cfg n w]
  by (simp add: index_mapping_def)

theorem ensure_index_creates_once_witness:
  "indices (snd (ensure_index default_config fresh_world)) ''docs'' =
     Some \<lparr>body = index_mapping, stored = [], searchable = []\<rparr>
   \<and> calls (snd (ensure_index default_config seeded_world)) = [(0, Exists ''docs'')]
   \<and> indices (snd (ensure_index default_config seeded_world)) = indices seeded_world
   \<and> creates ''docs'' (ensure_index_times 3 default_config fresh_world) \<le> 1"
proof -
  have n: "indices fresh_world (index_name default_config) = None"
    by (simp add: fresh_world_def)
  have c0: "creates ''docs'' fresh_world = 0"
    by (simp add: creates_def fresh_world_def)
  have i: "index_name default_config = ''docs''" by (simp add: default_config_eq)
  have a: "indices (snd (ensure_index default_config fresh_world)) ''docs'' =
     Some \<lparr>body = index_mapping, stored = [], searchable = []\<rparr>
     \<and> creates ''docs'' (ensure_index_times 3 default_config fresh_world) \<le> 1"
    using ensure_index_creates_once [of fresh_world default_config seeded_index 3] n c0
    by (simp add: i)
  have b: "calls (snd (ensure_index default_config seeded_world)) = [(0, Exists ''docs'')]
     \<and> indices (snd (ensure_index default_config seeded_world)) = indices seeded_world"
    using ensure_index_creates_once [of seeded_world default_config seeded_index 0]
      seeded_index_lookup
    by (simp add: i log_call_def seeded_world_def fresh_world_def)
  from a b show ?thesis by simp
qed


section \<open>Waiting for the engine\<close>

lemma cluster_health_world:
  "snd (cluster_health w) = log_call Health w"
  by (simp add: cluster_health_def split: health_outcome.splits)

lemma health_calls_log_Health:
  "health_calls (log_call Health w) = health_calls w @ [clock w]"
  by (simp add: health_calls_def log_call_def)

lemma wait_loop_keeps_aux:
  assumes run: "wait_loop t0 s0 w0 = Some y0"
  shows "indices (snd y0) = indices w0 \<and> health_script (snd y0) = health_script w0
     \<and> full_text (snd y0) = full_text w0 \<and> clock w0 \<le> clock (snd y0)
     \<and> (\<exists>ts. calls (snd y0) = calls w0 @ map (\<lambda>t. (t, Health)) ts)"
proof (rule wait_loop.raw_induct
    [where P = "\<lambda>t s w y. indices (snd y) = indices w \<and> health_script (snd y) = health_script w
     \<and> full_text (snd y) = full_text w \<and> clock w \<le> clock (snd y)
     \<and> (\<exists>ts. calls (snd y) = calls w @ map (\<lambda>t. (t, Health)) ts)", OF _ run])
  fix loop :: "nat \<Rightarrow> nat \<Rightarrow> world \<Rightarrow> ((error + bool) \<times> world) option"
  fix t s w y
  assume 1: "\<And>t s w y. loop t s w = Some y \<Longrightarrow>
     indices (snd y) = indices w \<and> health_script (snd y) = health_script w
     \<and> full_text (snd y) = full_text w \<and> clock w \<le> clock (snd y)
     \<and> (\<exists>ts. calls (snd y) = calls w @ map (\<lambda>t. (t, Health)) ts)"
    "(if clock w - s < t then
        (case cluster_health w of
           (Inl e, w1) \<Rightarrow> loop t s (sleep 2 w1)
         | (Inr health, w1) \<Rightarrow>
             if health_ok health then Some (Inr True, w1) else loop t s w1)
      else Some (Inl (RuntimeError ''OpenSearch not available''), w)) = Some y"
  show "indices (snd y) = indices w \<and> health_script (snd y) = health_script w
     \<and> full_text (snd y) = full_text w \<and> clock w \<le> clock (snd y)
     \<and> (\<exists>ts. calls (snd y) = calls w @ map (\<lambda>t. (t, Health)) ts)"
  proof (cases "clock w - s < t")
    case False
    with 1(2) have "y = (Inl (RuntimeError ''OpenSearch not available''), w)" by simp
    then show ?thesis by simp
  next
    case True
    let ?w1 = "log_call Health w"
    have c1: "calls ?w1 = calls w @ map (\<lambda>t. (t, Health)) [clock w]"
      by (simp add: log_call_def)
    show ?thesis
    proof (cases "health_script w (length (health_calls w))")
      case Raises
      with True 1(2) have "loop t s (sleep 2 ?w1) = Some y"
        by (simp add: cluster_health_def)
      from 1(1) [OF this] obtain ts where
        k: "indices (snd y) = indices (sleep 2 ?w1)"
           "health_script (snd y) = health_script (sleep 2 ?w1)"
           "full_text (snd y) = full_text (sleep 2 ?w1)"
           "clock (sleep 2 ?w1) \<le> clock (snd y)"
           "calls (snd y) = calls (sleep 2 ?w1) @ map (\<lambda>t. (t, Health)) ts"
        by blast
      have "calls (snd y) = calls w @ map (\<lambda>t. (t, Health)) (clock w # ts)"
        using k(5) by (simp add: sleep_def log_call_def)
      then have "\<exists>ts. calls (snd y) = calls w @ map (\<lambda>t. (t, Health)) ts" by blast
      with k show ?thesis by (simp add: sleep_def log_call_def)
    next
      case (Returns h)
      show ?thesis
      proof (cases "health_ok h")
        case ok: True
        with True Returns 1(2) have "y = (Inr True, ?w1)"
          by (simp add: cluster_health_def)
        moreover have "\<exists>ts. calls ?w1 = calls w @ map (\<lambda>t. (t, Health)) ts"
          using c1 by blast
        ultimately show ?thesis by (simp add: log_call_def)
      next
        case nok: False
        with True Returns 1(2) have "loop t s ?w1 = Some y"
          by (simp add: cluster_health_def)
        from 1(1) [OF this] obtain ts where
          k: "indices (snd y) = indices ?w1"
             "health_script (snd y) = health_script ?w1"
             "full_text (snd y) = full_text ?w1"
             "clock ?w1 \<le> clock (snd y)"
             "calls (snd y) = calls ?w1 @ map (\<lambda>t. (t, Health)) ts"
          by blast
        have "calls (snd y) = calls w @ map (\<lambda>t. (t, Health)) (clock w # ts)"
          using k(5) by (simp add: log_call_def)
        then have "\<exists>ts. calls (snd y) = calls w @ map (\<lambda>t. (t, Health)) ts" by blast
        with k show ?thesis by (simp add: log_call_def)
      qed
    qed
  qed
qed

lemma wait_loop_keeps:
  assumes "wait_loop t s w = Some (r, w')"
  shows "indices w' = indices w \<and> health_script w' = health_script w
         \<and> full_text w' = full_text w \<and> clock w \<le> clock w'
         \<and> (\<exists>ts. calls w' = calls w @ map (\<lambda>t. (t, Health)) ts)"
  using wait_loop_keeps_aux [OF assms] by simp

lemma wait_for_opensearch_healthy:
  assumes "health_script w (length (health_calls w)) = Returns h" and "health_ok h" and "0 < t"
  shows "wait_for_opensearch t w = Some (Inr True, log_call Health w)"
  unfolding wait_for_opensearch_def
  by (subst wait_loop.simps) (simp add: assms cluster_health_def)

text \<open>
  Health calls that raise: \<open>n\<close> failing polls, each followed by a sleep of 2, then a
  successful one within the timeout; and polls that all raise until the timeout.
\<close>

lemma wait_loop_raises_then_ok:
  assumes "\<forall>i<n. health_script w (length (health_calls w) + i) = Raises"
      and "health_script w (length (health_calls w) + n) = Returns h" and "health_ok h"
      and "clock w + 2 * n - s < t"
  shows "\<exists>w'. wait_loop t s w = Some (Inr True, w')
           \<and> clock w' = clock w + 2 * n
           \<and> health_calls w' = health_calls w @ map (\<lambda>i. clock w + 2 * i) [0..<Suc n]"
  using assms
proof (induction n arbitrary: w)
  case 0
  then have "clock w - s < t" by simp
  with 0 have "wait_loop t s w = Some (Inr True, log_call Health w)"
    by (subst wait_loop.simps) (simp add: cluster_health_def)
  then show ?case by (simp add: health_calls_log_Health) (simp add: log_call_def)
next
  case (Suc n)
  let ?w1 = "sleep 2 (log_call Health w)"
  have lt: "clock w - s < t" using Suc.prems(4) by simp
  have r: "health_script w (length (health_calls w)) = Raises"
    using Suc.prems(1) by (metis add.right_neutral zero_less_Suc)
  have step: "wait_loop t s w = wait_loop t s ?w1"
    by (subst wait_loop.simps) (simp add: lt r cluster_health_def)
  have hc: "health_calls ?w1 = health_calls w @ [clock w]"
    by (simp add: health_calls_def sleep_def log_call_def)
  have hs: "health_script ?w1 = health_script w" by (simp add: sleep_def log_call_def)
  have ck: "clock ?w1 = clock w + 2" by (simp add: sleep_def log_call_def)
  have a1: "\<forall>i<n. health_script ?w1 (length (health_calls ?w1) + i) = Raises"
  proof (intro allI impI)
    fix i assume "i < n"
    then have "Suc i < Suc n" by simp
    from Suc.prems(1) [rule_format, OF this]
    show "health_script ?w1 (length (health_calls ?w1) + i) = Raises" by (simp add: hc hs)
  qed
  have a2: "health_script ?w1 (length (health_calls ?w1) + n) = Returns h"
    using Suc.prems(2) by (simp add: hc hs)
  have a4: "clock ?w1 + 2 * n - s < t" using Suc.prems(4) by (simp add: ck)
  from Suc.IH [OF a1 a2 Suc.prems(3) a4] obtain w' where
    w': "wait_loop t s ?w1 = Some (Inr True, w')" "clock w' = clock ?w1 + 2 * n"
        "health_calls w' = health_calls ?w1 @ map (\<lambda>i. clock ?w1 + 2 * i) [0..<Suc n]"
    by blast
  have "map (\<lambda>i. clock w + 2 * i) [0..<Suc (Suc n)]
        = clock w # map (\<lambda>i. clock w + 2 + 2 * i) [0..<Suc n]"
    by (simp only: upt_conv_Cons [of 0 "Suc (Suc n)"] map_Suc_upt [symmetric] list.map)
       (simp add: comp_def)
  with w' step show ?case by (simp add: hc ck del: upt_Suc)
qed


lemma half_step: "0 < (k::nat) \<Longrightarrow> (k + 1) div 2 = Suc ((k - 2 + 1) div 2)"
  by presburger

lemma wait_loop_raises_until_timeout:
  assumes "\<forall>i. health_script w (length (health_calls w) + i) = Raises" and "s \<le> clock w"
  shows "\<exists>w'. wait_loop t s w = Some (Inl (RuntimeError ''OpenSearch not available''), w')
           \<and> clock w' = clock w + 2 * ((t - (clock w - s) + 1) div 2)
           \<and> health_calls w' =
               health_calls w
               @ map (\<lambda>i. clock w + 2 * i) [0..<(t - (clock w - s) + 1) div 2]"
  using assms
proof (induction "t - (clock w - s)" arbitrary: w rule: less_induct)
  case less
  show ?case
  proof (cases "clock w - s < t")
    case False
    then have "wait_loop t s w = Some (Inl (RuntimeError ''OpenSearch not available''), w)"
      by (subst wait_loop.simps) simp
    moreover from False have "(t - (clock w - s) + 1) div 2 = 0" by simp
    ultimately show ?thesis by simp
  next
    case True
    let ?w1 = "sleep 2 (log_call Health w)"
    have r: "health_script w (length (health_calls w)) = Raises"
      using less.prems(1) [rule_format, of 0] by simp
    have step: "wait_loop t s w = wait_loop t s ?w1"
      by (subst wait_loop.simps) (simp add: True r cluster_health_def)
    have hc: "health_calls ?w1 = health_calls w @ [clock w]"
      by (simp add: health_calls_def sleep_def log_call_def)
    have hs: "health_script ?w1 = health_script w" by (simp add: sleep_def log_call_def)
    have ck: "clock ?w1 = clock w + 2" by (simp add: sleep_def log_call_def)
    have m: "t - (clock ?w1 - s) < t - (clock w - s)"
      using True less.prems(2) by (simp add: ck)
    have a1: "\<forall>i. health_script ?w1 (length (health_calls ?w1) + i) = Raises"
    proof
      fix i
      from less.prems(1) [rule_format, of "Suc i"]
      show "health_script ?w1 (length (health_calls ?w1) + i) = Raises" by (simp add: hc hs)
    qed
    have a2: "s \<le> clock ?w1" using less.prems(2) by (simp add: ck)
    let ?n1 = "(t - (clock ?w1 - s) + 1) div 2"
    from less.hyps [OF m a1 a2] obtain w' where
      w': "wait_loop t s ?w1 = Some (Inl (RuntimeError ''OpenSearch not available''), w')"
          "clock w' = clock ?w1 + 2 * ?n1"
          "health_calls w' = health_calls ?w1 @ map (\<lambda>i. clock ?w1 + 2 * i) [0..<?n1]"
      by blast
    have "t - (clock ?w1 - s) = t - (clock w - s) - 2"
      using less.prems(2) by (simp add: ck)
    moreover have "0 < t - (clock w - s)" using True by simp
    ultimately have n: "(t - (clock w - s) + 1) div 2 = Suc ?n1"
      by (simp only: half_step)
    have "map (\<lambda>i. clock w + 2 * i) [0..<Suc ?n1]
          = clock w # map (\<lambda>i. clock w + 2 + 2 * i) [0..<?n1]"
      by (simp only: upt_conv_Cons [of 0 "Suc ?n1"] map_Suc_upt [symmetric] list.map)
         (simp add: comp_def)
    with w' step show ?thesis unfolding n by (simp add: hc ck del: upt_Suc)
  qed
qed

lemma wait_for_opensearch_timeout:
  assumes "\<forall>i. health_script w (length (health_calls w) + i) = Raises"
  shows "\<exists>w'. wait_for_opensearch t w =
                 Some (Inl (RuntimeError ''OpenSearch not available''), w')
           \<and> clock w' = clock w + 2 * ((t + 1) div 2)
           \<and> health_calls w' = health_calls w @ map (\<lambda>i. clock w + 2 * i) [0..<(t + 1) div 2]"
  using wait_loop_raises_until_timeout [OF assms, of "clock w" t]
  by (simp add: wait_for_opensearch_def)

lemma wait_for_opensearch_late:
  "map_option (\<lambda>rw. (fst rw, clock (snd rw), health_calls (snd rw)))
     (wait_for_opensearch 60 late_world) = Some (Inr True, 6, [0, 2, 4, 6])"
  by code_simp

lemma wait_for_opensearch_unreachable:
  "map_option (\<lambda>rw. (fst rw, clock (snd rw), health_calls (snd rw)))
     (wait_for_opensearch 60 unreachable_world) =
   Some (Inl (RuntimeError ''OpenSearch not available''), 60,
     [0, 2, 4, 6, 8, 10, 12, 14, 16, 18, 20, 22, 24, 26, 28,
      30, 32, 34, 36, 38, 40, 42, 44, 46, 48, 50, 52, 54, 56, 58])"
  by code_simp

text \<open>
  Claim C8 says that the loop polls at a fixed interval of 2 time units. The code sleeps
  only in the handler of an exception. Against an engine whose first two health
  responses carry no status and whose third is green, the loop makes its three health
  calls at time 0, 0 and 0 and returns at time 0: between polls that return without a
  status there is no interval at all.
\<close>

theorem wait_for_opensearch_polls_without_sleep:
  "map_option (\<lambda>rw. (fst rw, clock (snd rw), health_calls (snd rw)))
     (wait_for_opensearch 60 statusless_world) = Some (Inr True, 0, [0, 0, 0])"
  by code_simp


section \<open>Query translation\<close>






section \<open>Seeding\<close>

lemma seed_loop_existing:
  "indices w (index_name cfg) = Some ix \<Longrightarrow>
     seed_loop cfg w ps =
       (Inr (),
        w\<lparr>indices := (indices w)(index_name cfg \<mapsto>
              ix\<lparr>stored := fold (\<lambda>p. AList.update (fst p + 1) (snd p)) ps (stored ix)\<rparr>),
          calls := calls w
            @ map (\<lambda>p. (clock w, Index (index_name cfg) (fst p + 1) (snd p))) ps\<rparr>)"
proof (induction ps arbitrary: w ix)
  case Nil
  then show ?case by (simp add: map_upd_triv)
next
  case (Cons p ps)
  obtain i doc where p: "p = (i, doc)" by (cases p)
  let ?w1 = "(log_call (Index (index_name cfg) (i + 1) doc) w)
               \<lparr>indices := (indices w)(index_name cfg \<mapsto>
                   ix\<lparr>stored := AList.update (i + 1) doc (stored ix)\<rparr>)\<rparr>"
  have s: "client_index w (index_name cfg) (i + 1) doc = (Inr (), ?w1)"
    using Cons.prems by (simp add: client_index_def)
  have i1: "indices ?w1 (index_name cfg) = Some (ix\<lparr>stored := AList.update (i + 1) doc (stored ix)\<rparr>)"
    by simp
  show ?case
    unfolding p seed_loop.simps s
    by (simp only: prod.case sum.case Cons.IH [OF i1]) (simp add: log_call_def cong: if_cong)
qed

lemma seed_docs_empty:
  assumes "indices w (index_name cfg) = Some ix" and "searchable ix = []"
  shows "seed_docs cfg w =
       (Inr (),
        w\<lparr>indices := (indices w)(index_name cfg \<mapsto>
              ix\<lparr>stored := seed_into (stored ix), searchable := seed_into (stored ix)\<rparr>),
          calls := calls w
            @ [(clock w, Count (index_name cfg))]
            @ map (\<lambda>p. (clock w, Index (index_name cfg) (fst p + 1) (snd p))) (enumerate 0 seed)
            @ [(clock w, Refresh (index_name cfg))]\<rparr>)"
proof -
  let ?w1 = "log_call (Count (index_name cfg)) w"
  have c: "client_count w (index_name cfg) = (Inr 0, ?w1)"
    using assms by (simp add: client_count_def)
  have i1: "indices ?w1 (index_name cfg) = Some ix" using assms by (simp add: log_call_def)
  show ?thesis
    unfolding seed_docs_def c
    by (simp only: prod.case sum.case seed_loop_existing [OF i1] less_irrefl if_False)
       (simp add: indices_refresh_def log_call_def seed_into_def)
qed

lemma seed_docs_nonempty:
  assumes "indices w (index_name cfg) = Some ix" and "searchable ix \<noteq> []"
  shows "seed_docs cfg w = (Inr (), log_call (Count (index_name cfg)) w)"
  using assms by (simp add: seed_docs_def client_count_def)

lemma seed_into_empty: "seed_into [] = zip [1, 2, 3, 4, 5] seed"
  by (simp add: seed_into_def seed_def enumerate_eq_zip upt_rec)

lemma seed_into_nonempty: "seed_into st \<noteq> []"
  by (simp add: seed_into_def seed_def enumerate_eq_zip upt_rec)


lemma ensure_index_props:
  "fst (ensure_index cfg w) = Inr ()
   \<and> health_script (snd (ensure_index cfg w)) = health_script w
   \<and> indices (snd (ensure_index cfg w)) =
       (case indices w (index_name cfg) of
          None \<Rightarrow> (indices w)(index_name cfg \<mapsto>
                     \<lparr>body = index_mapping, stored = [], searchable = []\<rparr>)
        | Some ix \<Rightarrow> indices w)"
proof (cases "indices w (index_name cfg)")
  case None
  then show ?thesis by (simp add: ensure_index_absent log_call_def)
next
  case (Some ix)
  then show ?thesis by (simp add: ensure_index_present log_call_def)
qed

lemma seed_docs_props:
  assumes "indices w (index_name cfg) = Some ix"
  shows "fst (seed_docs cfg w) = Inr ()
   \<and> health_script (snd (seed_docs cfg w)) = health_script w
   \<and> indices (snd (seed_docs cfg w)) =
       (if searchable ix = []
        then (indices w)(index_name cfg \<mapsto>
               ix\<lparr>stored := seed_into (stored ix), searchable := seed_into (stored ix)\<rparr>)
        else indices w)"
proof (cases "searchable ix = []")
  case True
  from seed_docs_empty [OF assms True] True show ?thesis by simp
next
  case False
  from seed_docs_nonempty [OF assms False] False show ?thesis by (simp add: log_call_def)
qed

lemma startup_after_wait:
  assumes "wait_for_opensearch 60 w = Some (Inr ok, wa)"
  shows "startup cfg w = Some (seed_docs cfg (snd (ensure_index cfg wa)))"
  using ensure_index_props [of cfg wa]
  by (cases "ensure_index cfg wa") (simp add: startup_def assms)

lemma startup_wait_failed:
  assumes "wait_for_opensearch 60 w = Some (Inl e, wa)"
  shows "startup cfg w = Some (Inl e, wa)"
  by (simp add: startup_def assms)

lemma wait_for_opensearch_keeps:
  assumes "wait_for_opensearch t w = Some (r, wa)"
  shows "indices wa = indices w \<and> health_script wa = health_script w"
  using wait_loop_keeps [OF assms [unfolded wait_for_opensearch_def]] by simp

text \<open>The indices after a startup that returned normally.\<close>

lemma startup_index:
  assumes "startup cfg w = Some (Inr u, w1)"
  shows "indices w1 =
    (case indices w (index_name cfg) of
       None \<Rightarrow> (indices w)(index_name cfg \<mapsto>
          \<lparr>body = index_mapping, stored = seed_into [], searchable = seed_into []\<rparr>)
     | Some ix \<Rightarrow>
         if searchable ix = []
         then (indices w)(index_name cfg \<mapsto>
                ix\<lparr>stored := seed_into (stored ix), searchable := seed_into (stored ix)\<rparr>)
         else indices w)"
proof (cases "wait_for_opensearch 60 w")
  case None
  with assms show ?thesis by (simp add: startup_def)
next
  case (Some rw)
  obtain r wa where rw: "rw = (r, wa)" by (cases rw)
  show ?thesis
  proof (cases r)
    case (Inl e)
    with assms Some rw show ?thesis by (simp add: startup_def)
  next
    case (Inr ok)
    let ?wb = "snd (ensure_index cfg wa)"
    have k: "indices wa = indices w"
      using wait_for_opensearch_keeps Some rw by blast
    have s: "seed_docs cfg ?wb = (Inr u, w1)"
      using startup_after_wait [of w ok wa cfg] assms Some rw Inr by simp
    show ?thesis
    proof (cases "indices w (index_name cfg)")
      case None
      have "indices ?wb (index_name cfg) =
              Some \<lparr>body = index_mapping, stored = [], searchable = []\<rparr>"
        using ensure_index_props [of cfg wa] None k by simp
      from seed_docs_props [OF this] s ensure_index_props [of cfg wa] None k
      show ?thesis by simp
    next
      case (Some ix)
      have "indices ?wb (index_name cfg) = Some ix"
        using ensure_index_props [of cfg wa] Some k by simp
      from seed_docs_props [OF this] s ensure_index_props [of cfg wa] Some k
      show ?thesis by simp
    qed
  qed
qed

lemma startup_keeps_seeded:
  assumes "indices w (index_name cfg) = Some ix" and "searchable ix \<noteq> []"
      and "startup cfg w = Some (r, w')"
  shows "indices w' = indices w"
proof (cases "wait_for_opensearch 60 w")
  case None
  with assms show ?thesis by (simp add: startup_def)
next
  case (Some rw)
  obtain r0 wa where rw: "rw = (r0, wa)" by (cases rw)
  have k: "indices wa = indices w"
    using wait_for_opensearch_keeps Some rw by blast
  show ?thesis
  proof (cases r0)
    case (Inl e)
    with assms(3) Some rw k show ?thesis by (simp add: startup_wait_failed)
  next
    case (Inr ok)
    let ?wb = "snd (ensure_index cfg wa)"
    have s: "seed_docs cfg ?wb = (r, w')"
      using startup_after_wait [of w ok wa cfg] assms(3) Some rw Inr by simp
    have "indices ?wb = indices w" "indices ?wb (index_name cfg) = Some ix"
      using ensure_index_props [of cfg wa] assms(1) k by simp_all
    with seed_docs_props [of ?wb cfg ix] s assms(2) show ?thesis by simp
  qed
qed

lemma startup_success_searchable:
  assumes "startup cfg w = Some (Inr u, w1)"
  shows "\<exists>ix. indices w1 (index_name cfg) = Some ix \<and> searchable ix \<noteq> []"
  using startup_index [OF assms] seed_into_nonempty
  by (auto split: option.splits if_splits)

lemma startup_healthy:
  assumes "\<forall>k. \<exists>h. health_script w k = Returns h \<and> health_ok h"
  shows "\<exists>w1. startup cfg w = Some (Inr (), w1) \<and> health_script w1 = health_script w"
proof -
  from assms obtain h where
    "health_script w (length (health_calls w)) = Returns h" "health_ok h" by blast
  then have wt: "wait_for_opensearch 60 w = Some (Inr True, log_call Health w)"
    by (rule wait_for_opensearch_healthy) simp
  let ?wa = "log_call Health w"
  let ?wb = "snd (ensure_index cfg ?wa)"
  obtain ix where ix: "indices ?wb (index_name cfg) = Some ix"
    using ensure_index_props [of cfg ?wa] by (cases "indices ?wa (index_name cfg)") auto
  have "fst (seed_docs cfg ?wb) = Inr ()" "health_script (snd (seed_docs cfg ?wb)) = health_script w"
    using seed_docs_props [OF ix] ensure_index_props [of cfg ?wa] by (simp_all add: log_call_def)
  then show ?thesis
    unfolding startup_after_wait [OF wt]
    by (cases "seed_docs cfg ?wb") simp
qed

text \<open>
  Claim C2, as stated, fails: on an engine whose index already holds one document, two
  bootstrap runs in succession both return normally and leave one document in the
  index, not five.
\<close>

theorem startup_twice_keeps_foreign_index:
  "document_count_after ''docs'' (startup_twice default_config one_doc_world)
     = Some (Inr (), Some 1)"
  by code_simp

text \<open>
  Claim C2, amended. \<open>seed_docs\<close> indexes the five seed documents under the ids 1 to 5
  and then refreshes exactly when the count of the index is zero, and makes only the
  count call, leaving the index unchanged, when the count is nonzero. Hence a second
  bootstrap run leaves every index as the first run left it, and two bootstrap runs in
  succession on an engine whose index is absent or holds no document result in exactly
  the 5 seed documents in the index, stored and searchable. On an engine that answers
  every health call with a status, both runs return normally. (On an index that
  already holds documents the bootstrap adds none.)
\<close>

theorem seeding_idempotent:
  "(indices w (index_name cfg) = Some ix \<and> searchable ix = [] \<longrightarrow>
      seed_docs cfg w =
        (Inr (),
         w\<lparr>indices := (indices w)(index_name cfg \<mapsto>
               ix\<lparr>stored := seed_into (stored ix), searchable := seed_into (stored ix)\<rparr>),
           calls := calls w
             @ [(clock w, Count (index_name cfg))]
             @ map (\<lambda>p. (clock w, Index (index_name cfg) (fst p + 1) (snd p)))
                 (enumerate 0 seed)
             @ [(clock w, Refresh (index_name cfg))]\<rparr>))
   \<and> (indices w (index_name cfg) = Some ix \<and> searchable ix \<noteq> [] \<longrightarrow>
        seed_docs cfg w = (Inr (), log_call (Count (index_name cfg)) w))
   \<and> seed_into [] = zip [1, 2, 3, 4, 5] seed
   \<and> (startup cfg w = Some (Inr (), w1) \<and> startup cfg w1 = Some (r2, w2) \<longrightarrow>
        indices w2 = indices w1)
   \<and> ((indices w (index_name cfg) = None
        \<or> (\<exists>ix0. indices w (index_name cfg) = Some ix0 \<and> stored ix0 = [] \<and> searchable ix0 = []))
       \<and> startup cfg w = Some (Inr (), w1) \<and> startup cfg w1 = Some (r2, w2) \<longrightarrow>
        (\<exists>ix2. indices w2 (index_name cfg) = Some ix2
               \<and> stored ix2 = zip [1, 2, 3, 4, 5] seed
               \<and> searchable ix2 = zip [1, 2, 3, 4, 5] seed)
        \<and> document_count (index_name cfg) w2 = Some 5
        \<and> fst (client_count w2 (index_name cfg)) = Inr 5)
   \<and> ((\<forall>k. \<exists>h. health_script w k = Returns h \<and> health_ok h) \<longrightarrow>
        (\<exists>w1 w2. startup cfg w = Some (Inr (), w1) \<and> startup cfg w1 = Some (Inr (), w2)
                 \<and> startup_twice cfg w = Some (Inr (), w2)))"
proof -
  have p1: "indices w (index_name cfg) = Some ix \<and> searchable ix = [] \<longrightarrow>
      seed_docs cfg w =
        (Inr (),
         w\<lparr>indices := (indices w)(index_name cfg \<mapsto>
               ix\<lparr>stored := seed_into (stored ix), searchable := seed_into (stored ix)\<rparr>),
           calls := calls w
             @ [(clock w, Count (index_name cfg))]
             @ map (\<lambda>p. (clock w, Index (index_name cfg) (fst p + 1) (snd p)))
                 (enumerate 0 seed)
             @ [(clock w, Refresh (index_name cfg))]\<rparr>)"
    using seed_docs_empty [of w cfg ix] by blast
  have p2: "indices w (index_name cfg) = Some ix \<and> searchable ix \<noteq> [] \<longrightarrow>
        seed_docs cfg w = (Inr (), log_call (Count (index_name cfg)) w)"
    using seed_docs_nonempty [of w cfg ix] by blast
  have p3: "indices w2 = indices w1"
    if "startup cfg w = Some (Inr (), w1)" "startup cfg w1 = Some (r2, w2)"
  proof -
    from startup_success_searchable [OF that(1)] obtain ix1 where
      "indices w1 (index_name cfg) = Some ix1" "searchable ix1 \<noteq> []" by blast
    then show ?thesis using that(2) by (rule startup_keeps_seeded)
  qed
  have p4: "(\<exists>ix2. indices w2 (index_name cfg) = Some ix2
               \<and> stored ix2 = zip [1, 2, 3, 4, 5] seed
               \<and> searchable ix2 = zip [1, 2, 3, 4, 5] seed)
        \<and> document_count (index_name cfg) w2 = Some 5
        \<and> fst (client_count w2 (index_name cfg)) = Inr 5"
    if f: "indices w (index_name cfg) = None
        \<or> (\<exists>ix0. indices w (index_name cfg) = Some ix0 \<and> stored ix0 = [] \<and> searchable ix0 = [])"
      and s: "startup cfg w = Some (Inr (), w1)" "startup cfg w1 = Some (r2, w2)"
  proof -
    have "\<exists>ix1. indices w1 (index_name cfg) = Some ix1
               \<and> stored ix1 = zip [1, 2, 3, 4, 5] seed
               \<and> searchable ix1 = zip [1, 2, 3, 4, 5] seed"
      using f startup_index [OF s(1)] by (auto simp: seed_into_empty)
    with p3 [OF s] obtain ix2 where
      ix2: "indices w2 (index_name cfg) = Some ix2" "stored ix2 = zip [1, 2, 3, 4, 5] seed"
           "searchable ix2 = zip [1, 2, 3, 4, 5] seed"
      by auto
    have "length (zip [1 :: nat, 2, 3, 4, 5] seed) = 5" by (simp add: seed_def)
    with ix2 show ?thesis by (simp add: document_count_def client_count_def)
  qed
  have p5: "\<exists>w1 w2. startup cfg w = Some (Inr (), w1) \<and> startup cfg w1 = Some (Inr (), w2)
                 \<and> startup_twice cfg w = Some (Inr (), w2)"
    if h: "\<forall>k. \<exists>h. health_script w k = Returns h \<and> health_ok h"
  proof -
    from startup_healthy [OF h, of cfg] obtain w1 where
      w1: "startup cfg w = Some (Inr (), w1)" "health_script w1 = health_script w" by blast
    from h w1(2) have "\<forall>k. \<exists>h. health_script w1 k = Returns h \<and> health_ok h" by simp
    from startup_healthy [OF this, of cfg] obtain w2 where
      w2: "startup cfg w1 = Some (Inr (), w2)" by blast
    from w1(1) w2 have "startup_twice cfg w = Some (Inr (), w2)"
      by (simp add: startup_twice_def)
    with w1(1) w2 show ?thesis by blast
  qed
  from p1 p2 seed_into_empty p3 p4 p5 show ?thesis by blast
qed

theorem seeding_idempotent_witness:
  "document_count_after ''docs'' (startup_twice default_config fresh_world)
     = Some (Inr (), Some 5)
   \<and> seed_docs default_config seeded_world = (Inr (), log_call (Count ''docs'') seeded_world)
   \<and> calls (snd (seed_docs default_config empty_index_world)) =
       [(0, Count ''docs''),
        (0, Index ''docs'' 1
              [(''title'', JStr ''title1''), (''content'', JStr ''content1''),
               (''content_type'', JStr ''article'')]),
        (0, Index ''docs'' 2
              [(''title'', JStr ''title2''), (''content'', JStr ''content2''),
               (''content_type'', JStr ''news'')]),
        (0, Index ''docs'' 3
              [(''title'', JStr ''title3''), (''content'', JStr ''content3''),
               (''content_type'', JStr ''blog'')]),
        (0, Index ''docs'' 4
              [(''title'', JStr ''title4''), (''content'', JStr ''content4''),
               (''content_type'', JStr ''report'')]),
        (0, Index ''docs'' 5
              [(''title'', JStr ''title5''), (''content'', JStr ''content5''),
               (''content_type'', JStr ''article'')]),
        (0, Refresh ''docs'')]
   \<and> indices (snd (seed_docs default_config empty_index_world)) ''docs'' = Some seeded_index"
proof -
  have i: "index_name default_config = ''docs''" by (simp add: default_config_eq)
  have h: "\<forall>k. \<exists>h. health_script fresh_world k = Returns h \<and> health_ok h"
    by (simp add: fresh_world_def health_ok_def)
  have f: "indices fresh_world (index_name default_config) = None"
    by (simp add: fresh_world_def)
  from seeding_idempotent [where w = fresh_world and cfg = default_config] h
  obtain w1 w2 where
    s: "startup default_config fresh_world = Some (Inr (), w1)"
       "startup default_config w1 = Some (Inr (), w2)"
       "startup_twice default_config fresh_world = Some (Inr (), w2)"
    by blast
  from seeding_idempotent
    [where w = fresh_world and cfg = default_config and ?w1.0 = w1 and ?w2.0 = w2
       and ?r2.0 = "Inr ()"] f s(1,2)
  have "document_count (index_name default_config) w2 = Some 5" by blast
  then have a: "document_count_after ''docs'' (startup_twice default_config fresh_world)
     = Some (Inr (), Some 5)"
    by (simp add: document_count_after_def s(3) i)
  have ne: "searchable seeded_index \<noteq> []" by (simp add: seeded_index_def seed_def)
  from seeding_idempotent
    [where w = seeded_world and cfg = default_config and ix = seeded_index]
    seeded_index_lookup ne
  have b: "seed_docs default_config seeded_world = (Inr (), log_call (Count ''docs'') seeded_world)"
    by (simp add: i)
  let ?e = "\<lparr>body = index_mapping, stored = [], searchable = []\<rparr>"
  have e: "indices empty_index_world (index_name default_config) = Some ?e"
    by (simp add: empty_index_world_def fresh_world_def i)
  from seeding_idempotent [where w = empty_index_world and cfg = default_config and ix = ?e] e
  have c: "seed_docs default_config empty_index_world =
        (Inr (),
         empty_index_world\<lparr>indices := (indices empty_index_world)(''docs'' \<mapsto>
               ?e\<lparr>stored := zip [1, 2, 3, 4, 5] seed, searchable := zip [1, 2, 3, 4, 5] seed\<rparr>),
           calls := calls empty_index_world
             @ [(clock empty_index_world, Count ''docs'')]
             @ map (\<lambda>p. (clock empty_index_world, Index ''docs'' (fst p + 1) (snd p)))
                 (enumerate 0 seed)
             @ [(clock empty_index_world, Refresh ''docs'')]\<rparr>)"
    by (simp add: i)
  have c1: "calls (snd (seed_docs default_config empty_index_world)) =
       [(0, Count ''docs''),
        (0, Index ''docs'' 1
              [(''title'', JStr ''title1''), (''content'', JStr ''content1''),
               (''content_type'', JStr ''article'')]),
        (0, Index ''docs'' 2
              [(''title'', JStr ''title2''), (''content'', JStr ''content2''),
               (''content_type'', JStr ''news'')]),
        (0, Index ''docs'' 3
              [(''title'', JStr ''title3''), (''content'', JStr ''content3''),
               (''content_type'', JStr ''blog'')]),
        (0, Index ''docs'' 4
              [(''title'', JStr ''title4''), (''content'', JStr ''content4''),
               (''content_type'', JStr ''report'')]),
        (0, Index ''docs'' 5
              [(''title'', JStr ''title5''), (''content'', JStr ''content5''),
               (''content_type'', JStr ''article'')]),
        (0, Refresh ''docs'')]"
    unfolding c
    by (simp add: empty_index_world_def fresh_world_def seed_def enumerate_eq_zip upt_rec)
  have c2: "indices (snd (seed_docs default_config empty_index_world)) ''docs'' = Some seeded_index"
    unfolding c by (simp add: seeded_index_def)
  from a b c1 c2 show ?thesis by blast
qed

end
